theory Spec2Isabelle
  imports Main "HOL-Library.Sublist" "HOL-Library.Multiset" "HOL-Library.AList"
begin

section \<open>Data model\<close>

text \<open>
  Modelled from the spec: the Shortcut class (lib/data-structures/Shortcut) is not among
  the sources. The record holds the fields the sources read (\<open>shortcut.id\<close>,
  \<open>shortcut.name\<close>, \<open>shortcut.position\<close>) and the command passed to the constructor in
  AddShortcut.tsx. The position is the integer ordering key of the spec. The field
  \<open>id\<close> is written \<open>id_s\<close>, since \<open>id\<close> is the identity function of HOL.
\<close>

record Shortcut =
  id_s :: string
  name :: string
  cmd :: string
  position :: int

text \<open>
  \<open>ReorderableEntry<T>\<close> of decky-frontend-lib, with the three fields that
  \<open>setShortcuts\<close> writes.
\<close>

record 'a ReorderableEntry =
  label :: string
  data :: 'a
  position :: int

text \<open>
  A JavaScript object used as a dictionary is an association list in the order in which
  \<open>Object.keys\<close> and \<open>Object.values\<close> enumerate it.
\<close>

type_synonym ShortcutsDictionary = "(string \<times> Shortcut) list"

definition Object_keys :: "(string \<times> 'v) list \<Rightarrow> string list" where
  "Object_keys obj = map fst obj"

definition Object_values :: "(string \<times> 'v) list \<Rightarrow> 'v list" where
  "Object_values obj = map snd obj"

text \<open>
  A JavaScript \<open>Set<string>\<close> is the list of its members in insertion order: \<open>add\<close> of a
  member changes nothing, \<open>delete\<close> of a non-member changes nothing.
\<close>

definition Set_add :: "string \<Rightarrow> string list \<Rightarrow> string list" where
  "Set_add x xs = (if x \<in> set xs then xs else xs @ [x])"

definition Set_delete :: "string \<Rightarrow> string list \<Rightarrow> string list" where
  "Set_delete x xs = removeAll x xs"

definition Set_has :: "string list \<Rightarrow> string \<Rightarrow> bool" where
  "Set_has xs x = (x \<in> set xs)"

text \<open>
  \<open>Array.prototype.sort\<close> with the comparator \<open>(a, b) => a.position - b.position\<close>: the
  sort is stable, so on integer keys its result is the stable sort by the key.
\<close>

definition Array_sort :: "('a \<Rightarrow> int) \<Rightarrow> 'a list \<Rightarrow> 'a list" where
  "Array_sort key xs = sort_key key xs"

text \<open>
  The assignment \<open>arr[i] = v\<close> on a dense array: inside the array it overwrites, at the
  end it appends. The loop of \<open>setShortcuts\<close> only ever writes at \<open>i = arr.length\<close>
  (lemma \<open>setShortcuts_loop_map\<close>), so an index beyond the end, which would leave holes,
  does not arise.
\<close>

definition Array_set :: "'a list \<Rightarrow> nat \<Rightarrow> 'a \<Rightarrow> 'a list" where
  "Array_set arr i v = (if i < length arr then arr[i := v] else arr @ [v])"

section \<open>ShortcutsState (src/state/ShortcutsState.tsx)\<close>

record PublicShortcutsState =
  shortcuts :: ShortcutsDictionary
  shortcutsList :: "Shortcut list"
  runningShortcuts :: "string list"
  reorderableShortcuts :: "Shortcut ReorderableEntry list"

text \<open>
  The class has the four private fields of the public state and the event bus. The event
  bus is modelled by what it delivers: the list of dispatched events, each with its type
  and the public state that a listener calling \<open>getPublicState\<close> during the (synchronous)
  dispatch reads.
\<close>

record ShortcutsState = PublicShortcutsState +
  eventBus :: "(string \<times> PublicShortcutsState) list"

definition ShortcutsState_new :: ShortcutsState where
  "ShortcutsState_new =
     \<lparr>shortcuts = [], shortcutsList = [], runningShortcuts = [],
      reorderableShortcuts = [], eventBus = []\<rparr>"

definition getPublicState :: "ShortcutsState \<Rightarrow> PublicShortcutsState" where
  "getPublicState s =
     \<lparr>shortcuts = shortcuts s, shortcutsList = shortcutsList s,
      runningShortcuts = runningShortcuts s,
      reorderableShortcuts = reorderableShortcuts s\<rparr>"

definition forceUpdate :: "ShortcutsState \<Rightarrow> ShortcutsState" where
  "forceUpdate s = s\<lparr>eventBus := eventBus s @ [(''stateUpdate'', getPublicState s)]\<rparr>"

definition setIsRunning :: "string \<Rightarrow> bool \<Rightarrow> ShortcutsState \<Rightarrow> ShortcutsState" where
  "setIsRunning shortcutId v s =
     forceUpdate
       (if v then s\<lparr>runningShortcuts := Set_add shortcutId (runningShortcuts s)\<rparr>
        else s\<lparr>runningShortcuts := Set_delete shortcutId (runningShortcuts s)\<rparr>)"

definition mkEntry :: "Shortcut \<Rightarrow> Shortcut ReorderableEntry" where
  "mkEntry shortcut =
     \<lparr>label = name shortcut, data = shortcut, position = Shortcut.position shortcut\<rparr>"

text \<open>The \<open>for\<close> loop of \<open>setShortcuts\<close>, from index \<open>i\<close>.\<close>

function setShortcuts_loop ::
  "nat \<Rightarrow> Shortcut list \<Rightarrow> Shortcut ReorderableEntry list \<Rightarrow> Shortcut ReorderableEntry list"
where
  "setShortcuts_loop i sl r =
     (if i < length sl
      then setShortcuts_loop (i + 1) sl (Array_set r i (mkEntry (sl ! i)))
      else r)"
  by pat_completeness auto
termination
  by (relation "measure (\<lambda>(i, sl, r). length sl - i)") auto

declare setShortcuts_loop.simps [simp del]

definition setShortcuts :: "ShortcutsDictionary \<Rightarrow> ShortcutsState \<Rightarrow> ShortcutsState" where
  "setShortcuts d s =
     (let s1 = s\<lparr>shortcuts := d\<rparr>;
          s2 = s1\<lparr>shortcutsList := Array_sort Shortcut.position (Object_values (shortcuts s1))\<rparr>;
          s3 = s2\<lparr>reorderableShortcuts := []\<rparr>;
          s4 = s3\<lparr>reorderableShortcuts :=
                    setShortcuts_loop 0 (shortcutsList s3) (reorderableShortcuts s3)\<rparr>;
          s5 = s4\<lparr>reorderableShortcuts :=
                    Array_sort ReorderableEntry.position (reorderableShortcuts s4)\<rparr>
      in forceUpdate s5)"

section \<open>The instance registry\<close>

text \<open>
  Modelled from the spec: the states of an Instance (section 3). The InstancesController
  (lib/controllers/InstancesController) and its Instance class are not among the
  sources; PluginController.ts reads its \<open>instances\<close> table, an object keyed by shortcut
  id, and calls \<open>createInstance\<close>, \<open>launchInstance\<close>, \<open>stopInstance\<close> and \<open>killInstance\<close> on it.
\<close>

datatype InstanceState = Launching | Running | Exiting | Exited

text \<open>
  Modelled from the spec: the Instance record of section 3, without the process handle
  and the exit callback.
\<close>

record Instance =
  shortcutId :: string
  hostIdentity :: nat
  istate :: InstanceState

text \<open>
  Modelled from the spec: what an InstancesController asks of the host (section 4.3) and
  of the backend (section 6).
\<close>

datatype Request =
    HostCreateIdentity string
  | BackendRun string
  | BackendStop string
  | BackendKill string

text \<open>
  The \<open>instances\<close> table that \<open>checkIfRunning\<close> reads, in the order of its keys, and the
  requests made so far.
\<close>

record InstancesController =
  instances :: "(string \<times> Instance) list"
  requests :: "Request list"

text \<open>
  The four operations that PluginController calls are parameters of its model: what the
  source of PluginController does holds for every InstancesController.
\<close>

record IC_ops =
  createInstance ::
    "string option \<Rightarrow> Shortcut \<Rightarrow> string \<Rightarrow> string \<Rightarrow> InstancesController
       \<Rightarrow> bool \<times> InstancesController"
  launchInstance :: "string \<Rightarrow> InstancesController \<Rightarrow> bool \<times> InstancesController"
  stopInstance :: "string \<Rightarrow> InstancesController \<Rightarrow> bool \<times> InstancesController"
  killInstance :: "string \<Rightarrow> InstancesController \<Rightarrow> bool \<times> InstancesController"

subsection \<open>The InstancesController of the specification\<close>

text \<open>
  Modelled from the spec: the answers of the outside world to one operation, the
  identity the host hands out (\<open>None\<close> when it rejects the request, HostIntegrationError)
  and whether the backend does what it is asked.
\<close>

record Env =
  host_identity :: "nat option"
  backend_ok :: bool

text \<open>Modelled from the spec: a request to the host or to the backend is recorded.\<close>

definition request :: "Request \<Rightarrow> InstancesController \<Rightarrow> InstancesController" where
  "request r c = c\<lparr>requests := requests c @ [r]\<rparr>"

text \<open>
  Modelled from the spec: \<open>createInstance\<close> is steps 1, 3 and 4 of \<open>launch\<close> (section 4.5).
  It fails with AlreadyRunning when the table has an instance for the id; it asks the
  host for an identity and returns false, with no entry created, when the host refuses;
  otherwise it registers the instance in state Launching. Shortcuts have no hook lists
  in this model, so step 2 fires nothing.
\<close>

definition spec_createInstance ::
  "Env \<Rightarrow> string option \<Rightarrow> Shortcut \<Rightarrow> string \<Rightarrow> string \<Rightarrow> InstancesController
     \<Rightarrow> bool \<times> InstancesController"
where
  "spec_createInstance env baseName shortcut rPath sDir c =
     (if id_s shortcut \<in> set (Object_keys (instances c)) then (False, c)
      else
        (let c1 = request (HostCreateIdentity (id_s shortcut)) c in
         case host_identity env of
           None \<Rightarrow> (False, c1)
         | Some h \<Rightarrow>
             (True, c1\<lparr>instances := instances c1 @
                [(id_s shortcut,
                  \<lparr>shortcutId = id_s shortcut, hostIdentity = h, istate = Launching\<rparr>)]\<rparr>)))"

text \<open>
  Modelled from the spec: \<open>launchInstance\<close> is steps 5 and 6 of \<open>launch\<close>. It asks the
  backend to run the command; on confirmation the instance is Running and the result is
  true, on failure the instance goes back to Idle (Registry.remove) and the result is
  false.
\<close>

definition spec_launchInstance ::
  "Env \<Rightarrow> string \<Rightarrow> InstancesController \<Rightarrow> bool \<times> InstancesController"
where
  "spec_launchInstance env sid c =
     (case map_of (instances c) sid of
        None \<Rightarrow> (False, c)
      | Some inst \<Rightarrow>
          (let c1 = request (BackendRun sid) c in
           if backend_ok env
           then (True, c1\<lparr>instances := AList.update sid (inst\<lparr>istate := Running\<rparr>) (instances c1)\<rparr>)
           else (False, c1\<lparr>instances := AList.delete sid (instances c1)\<rparr>)))"

text \<open>
  Modelled from the spec: \<open>stop\<close> and \<open>kill\<close> (section 4.5) ask the backend to terminate
  the process behind the instance, return false if no instance exists, and do no cleanup
  themselves.
\<close>

definition spec_stopInstance ::
  "Env \<Rightarrow> string \<Rightarrow> InstancesController \<Rightarrow> bool \<times> InstancesController"
where
  "spec_stopInstance env sid c =
     (case map_of (instances c) sid of
        None \<Rightarrow> (False, c)
      | Some inst \<Rightarrow> (backend_ok env, request (BackendStop sid) c))"

text \<open>Modelled from the spec: \<open>kill\<close>, as \<open>stop\<close> above.\<close>

definition spec_killInstance ::
  "Env \<Rightarrow> string \<Rightarrow> InstancesController \<Rightarrow> bool \<times> InstancesController"
where
  "spec_killInstance env sid c =
     (case map_of (instances c) sid of
        None \<Rightarrow> (False, c)
      | Some inst \<Rightarrow> (backend_ok env, request (BackendKill sid) c))"

text \<open>Modelled from the spec: the four operations together.\<close>

definition specIC :: "Env \<Rightarrow> IC_ops" where
  "specIC env =
     \<lparr>createInstance = spec_createInstance env, launchInstance = spec_launchInstance env,
      stopInstance = spec_stopInstance env, killInstance = spec_killInstance env\<rparr>"

section \<open>PluginController (src/lib/controllers/PluginController.ts)\<close>

text \<open>
  The calls of PluginController on its collaborators (PyInterop, the shortcuts
  controller, the web socket client, the hooks controller and the instances controller),
  in the order in which it makes them.
\<close>

datatype Call =
    Log string
  | RemoveShortcutById nat
  | WebSocketConnect
  | HooksInit ShortcutsDictionary
  | CreateInstanceCall "string option" Shortcut string string
  | LaunchInstanceCall string
  | StopInstanceCall string
  | KillInstanceCall string

text \<open>
  The static fields of the class and the calls made so far. \<open>shortcutName\<close> has no
  initialiser, so it is \<open>None\<close> until \<open>init\<close> assigns it. An operation of the class is a
  function from the controller to its result and the controller after it; each \<open>await\<close>
  is the next step of the operation, with no other handler running in between.
\<close>

record PluginController =
  shortcutName :: "string option"
  runnerPath :: string
  startDir :: string
  instancesController :: InstancesController
  state :: ShortcutsState
  calls :: "Call list"

definition call :: "Call \<Rightarrow> PluginController \<Rightarrow> PluginController" where
  "call e w = w\<lparr>calls := calls w @ [e]\<rparr>"

text \<open>
  A call of a method of the instances controller: the call is recorded, the method runs
  on the controller, and its boolean comes back.
\<close>

definition IC_call ::
  "Call \<Rightarrow> (InstancesController \<Rightarrow> bool \<times> InstancesController) \<Rightarrow> PluginController
     \<Rightarrow> bool \<times> PluginController"
where
  "IC_call e method w =
     (let (r, c) = method (instancesController w)
      in (r, w\<lparr>instancesController := c, calls := calls w @ [e]\<rparr>))"

text \<open>The calls an operation added when it took \<open>w\<close> to \<open>w'\<close>.\<close>

definition added :: "PluginController \<Rightarrow> PluginController \<Rightarrow> Call list" where
  "added w w' = drop (length (calls w)) (calls w')"

text \<open>The character \<open>"\<close>, which the two path literals carry at both ends.\<close>

definition dquote :: string where
  "dquote = [CHR 0x22]"

text \<open>
  The class after its static initialisers and \<open>setup\<close>, which stores the state it is
  given and creates the controllers.
\<close>

definition PluginController_setup :: "ShortcutsState \<Rightarrow> PluginController" where
  "PluginController_setup st =
     \<lparr>shortcutName = None,
      runnerPath = dquote @ ''/home/deck/homebrew/plugins/bash-shortcuts/shortcutsRunner.sh'' @ dquote,
      startDir = dquote @ ''/home/deck/homebrew/plugins/bash-shortcuts/'' @ dquote,
      instancesController = \<lparr>instances = [], requests = []\<rparr>,
      state = st, calls = []\<rparr>"

text \<open>
  The callback that \<open>initOnLogin\<close> gives to \<open>PyInterop.getHomeDir().then\<close>; \<open>res\<close> is
  \<open>res.result\<close>.
\<close>

definition initOnLogin_then :: "string \<Rightarrow> PluginController \<Rightarrow> PluginController" where
  "initOnLogin_then res w =
     w\<lparr>runnerPath :=
         dquote @ ''/home/'' @ res @ ''/homebrew/plugins/bash-shortcuts/shortcutsRunner.sh'' @ dquote,
       startDir := dquote @ ''/home/'' @ res @ ''/homebrew/plugins/bash-shortcuts/'' @ dquote\<rparr>"

text \<open>The two fields of a Steam shortcut that \<open>init\<close> reads.\<close>

record SteamAppDetails =
  strDisplayName :: string
  unAppID :: nat

text \<open>The \<open>for ... of\<close> loop of \<open>init\<close> over the old instances.\<close>

fun init_removeLoop :: "SteamAppDetails list \<Rightarrow> PluginController \<Rightarrow> PluginController" where
  "init_removeLoop [] w = w"
| "init_removeLoop (inst # rest) w = init_removeLoop rest (call (RemoveShortcutById (unAppID inst)) w)"

text \<open>
  \<open>init\<close>. The two awaited answers are arguments: \<open>steamShortcuts\<close> is what
  \<open>shortcutsController.getShortcuts()\<close> resolves to, and \<open>res\<close> is the \<open>result\<close> of
  \<open>PyInterop.getShortcuts()\<close>, \<open>Inl\<close> when it is a string (\<open>typeof shortcuts === "string"\<close>)
  and \<open>Inr\<close> when it is the shortcuts.
\<close>

definition init ::
  "string \<Rightarrow> SteamAppDetails list \<Rightarrow> string + ShortcutsDictionary \<Rightarrow> PluginController
     \<Rightarrow> PluginController"
where
  "init nm steamShortcuts res w =
     (let w1 = call (Log ''PluginController initializing...'') w;
          w2 = w1\<lparr>shortcutName := Some nm\<rparr>;
          oldInstances =
            filter (\<lambda>shortcut. prefix ''Bash Shortcuts - Instance'' (strDisplayName shortcut))
              steamShortcuts;
          w3 = (if length oldInstances > 0 then init_removeLoop oldInstances w2 else w2);
          w4 = call WebSocketConnect w3;
          w5 = (case res of
                  Inl err \<Rightarrow> call (Log (''Failed to get shortcuts for hooks. Error: '' @ err)) w4
                | Inr scs \<Rightarrow> call (HooksInit scs) w4)
      in call (Log ''PluginController initialized.'') w5)"

text \<open>\<open>PluginController.setIsRunning\<close> forwards to the state.\<close>

definition PluginController_setIsRunning ::
  "string \<Rightarrow> bool \<Rightarrow> PluginController \<Rightarrow> PluginController"
where
  "PluginController_setIsRunning sid v w = w\<lparr>state := setIsRunning sid v (state w)\<rparr>"

text \<open>
  \<open>launchShortcut\<close>, \<open>closeShortcut\<close> and \<open>killShortcut\<close>. The \<open>onExit\<close> callback of
  \<open>launchShortcut\<close> is handed on to \<open>launchInstance\<close> unchanged and is left out.
\<close>

definition launchShortcut :: "IC_ops \<Rightarrow> Shortcut \<Rightarrow> PluginController \<Rightarrow> bool \<times> PluginController" where
  "launchShortcut ic shortcut w =
     (let (createdInstance, w1) =
            IC_call (CreateInstanceCall (shortcutName w) shortcut (runnerPath w) (startDir w))
              (createInstance ic (shortcutName w) shortcut (runnerPath w) (startDir w)) w
      in if createdInstance
         then IC_call (LaunchInstanceCall (id_s shortcut)) (launchInstance ic (id_s shortcut))
                (call (Log (''Created Instance for shortcut '' @ name shortcut)) w1)
         else (False, w1))"

definition closeShortcut :: "IC_ops \<Rightarrow> Shortcut \<Rightarrow> PluginController \<Rightarrow> bool \<times> PluginController" where
  "closeShortcut ic shortcut w =
     (let (stoppedInstance, w1) =
            IC_call (StopInstanceCall (id_s shortcut)) (stopInstance ic (id_s shortcut)) w
      in if stoppedInstance
         then IC_call (KillInstanceCall (id_s shortcut)) (killInstance ic (id_s shortcut))
                (call (Log (''Stopped Instance for shortcut '' @ name shortcut)) w1)
         else (False,
               call (Log (''Failed to stop instance for shortcut '' @ name shortcut @
                          ''. Id: '' @ id_s shortcut)) w1))"

definition killShortcut :: "IC_ops \<Rightarrow> Shortcut \<Rightarrow> PluginController \<Rightarrow> bool \<times> PluginController" where
  "killShortcut ic shortcut w =
     IC_call (KillInstanceCall (id_s shortcut)) (killInstance ic (id_s shortcut)) w"

text \<open>
  \<open>checkIfRunning\<close> returns a boolean and assigns nothing; the model returns the
  controller beside the result, as the other operations do.
\<close>

definition Array_includes :: "string list \<Rightarrow> string \<Rightarrow> bool" where
  "Array_includes arr x = (x \<in> set arr)"

definition checkIfRunning :: "string \<Rightarrow> PluginController \<Rightarrow> bool \<times> PluginController" where
  "checkIfRunning shorcutId w =
     (Array_includes (Object_keys (instances (instancesController w))) shorcutId, w)"

text \<open>
  The work of \<open>checkIfRunning\<close>: \<open>Object.keys\<close> copies every key of the table into a fresh
  array (one step a key), and \<open>includes\<close> compares the elements of that array with the id
  from the front until it finds it (one step an element compared).
\<close>

fun Array_includes_steps :: "string list \<Rightarrow> string \<Rightarrow> nat" where
  "Array_includes_steps [] x = 0"
| "Array_includes_steps (y # ys) x = (if y = x then 1 else 1 + Array_includes_steps ys x)"

definition checkIfRunning_steps :: "string \<Rightarrow> PluginController \<Rightarrow> nat" where
  "checkIfRunning_steps shorcutId w =
     length (Object_keys (instances (instancesController w))) +
     Array_includes_steps (Object_keys (instances (instancesController w))) shorcutId"

section \<open>Observations used in the theorems\<close>

text \<open>
  The value of the last \<open>setIsRunning\<close> call for \<open>sid\<close> in a list of calls, \<open>b\<close> when there
  is none, and the run of a list of \<open>PluginController.setIsRunning\<close> calls.
\<close>

fun lastSet :: "string \<Rightarrow> (string \<times> bool) list \<Rightarrow> bool \<Rightarrow> bool" where
  "lastSet sid [] b = b"
| "lastSet sid ((k, v) # rest) b = lastSet sid rest (if k = sid then v else b)"

fun setIsRunning_calls :: "(string \<times> bool) list \<Rightarrow> PluginController \<Rightarrow> PluginController" where
  "setIsRunning_calls [] w = w"
| "setIsRunning_calls ((k, v) # rest) w = setIsRunning_calls rest (PluginController_setIsRunning k v w)"

text \<open>
  The runner path and start directory of every \<open>createInstance\<close> call in a list of
  calls.
\<close>

fun createInstancePaths :: "Call list \<Rightarrow> (string \<times> string) list" where
  "createInstancePaths [] = []"
| "createInstancePaths (CreateInstanceCall b sc rp sd # es) = (rp, sd) # createInstancePaths es"
| "createInstancePaths (e # es) = createInstancePaths es"

text \<open>A table of \<open>n\<close> instances under \<open>n\<close> different ids.\<close>

definition manyInstances :: "nat \<Rightarrow> (string \<times> Instance) list" where
  "manyInstances n =
     map (\<lambda>k. (replicate k CHR ''a'',
               \<lparr>shortcutId = replicate k CHR ''a'', hostIdentity = k, istate = Running\<rparr>)) [0..<n]"

text \<open>
  Modelled from the spec: an exit signal for a shortcut (section 4.5). The first signal
  moves a Running instance to Exiting; the next one ends an Exiting instance, which is
  removed from the table (Registry.remove) as it reaches Exited. From which of the two
  sources a signal comes is not recorded.
\<close>

definition spec_exitSignal :: "string \<Rightarrow> InstancesController \<Rightarrow> InstancesController" where
  "spec_exitSignal sid c =
     (case map_of (instances c) sid of
        None \<Rightarrow> c
      | Some inst \<Rightarrow>
          (if istate inst = Running
           then c\<lparr>instances := AList.update sid (inst\<lparr>istate := Exiting\<rparr>) (instances c)\<rparr>
           else if istate inst = Exiting
           then c\<lparr>instances := AList.delete sid (instances c)\<rparr>
           else c))"

text \<open>Modelled from the spec: the non-terminal states are Launching, Running and Exiting.\<close>

definition nonTerminal :: "Instance \<Rightarrow> bool" where
  "nonTerminal inst = (istate inst = Launching \<or> istate inst = Running \<or> istate inst = Exiting)"

text \<open>Every instance of the table is in a non-terminal state.\<close>

definition allNonTerminal :: "InstancesController \<Rightarrow> bool" where
  "allNonTerminal c = (\<forall>p \<in> set (instances c). nonTerminal (snd p))"

text \<open>
  The operations that can follow one another on a controller: the operations of
  PluginController, each launch, close and kill with the InstancesController it runs on,
  \<open>setShortcuts\<close> on the state, and an exit signal, which the instances controller
  handles by itself. A call of \<open>setIsRunning\<close> made by a collaborator is a \<open>SetIsRunning\<close>
  of the sequence.
\<close>

datatype Op =
    Launch IC_ops Shortcut
  | Close IC_ops Shortcut
  | Kill IC_ops Shortcut
  | ExitSignal "InstancesController \<Rightarrow> InstancesController"
  | SetIsRunning string bool
  | SetShortcuts ShortcutsDictionary
  | CheckIfRunning string
  | Init string "SteamAppDetails list" "string + ShortcutsDictionary"
  | HomeDirResolved string

fun step :: "Op \<Rightarrow> PluginController \<Rightarrow> PluginController" where
  "step (Launch ic sc) w = snd (launchShortcut ic sc w)"
| "step (Close ic sc) w = snd (closeShortcut ic sc w)"
| "step (Kill ic sc) w = snd (killShortcut ic sc w)"
| "step (ExitSignal handler) w = w\<lparr>instancesController := handler (instancesController w)\<rparr>"
| "step (SetIsRunning k v) w = PluginController_setIsRunning k v w"
| "step (SetShortcuts d) w = w\<lparr>state := setShortcuts d (state w)\<rparr>"
| "step (CheckIfRunning k) w = snd (checkIfRunning k w)"
| "step (Init nm steamShortcuts res) w = init nm steamShortcuts res w"
| "step (HomeDirResolved res) w = initOnLogin_then res w"

fun run :: "Op list \<Rightarrow> PluginController \<Rightarrow> PluginController" where
  "run [] w = w"
| "run (op # ops) w = run ops (step op w)"

text \<open>The \<open>setIsRunning\<close> calls of a sequence of operations, in their order.\<close>

fun setIsRunning_of :: "Op list \<Rightarrow> (string \<times> bool) list" where
  "setIsRunning_of [] = []"
| "setIsRunning_of (SetIsRunning k v # ops) = (k, v) # setIsRunning_of ops"
| "setIsRunning_of (op # ops) = setIsRunning_of ops"

text \<open>
  The operations on the InstancesController of the specification, with the answers of
  the outside world to each.
\<close>

datatype SpecOp =
    SpecLaunch Shortcut Env
  | SpecClose Shortcut Env
  | SpecKill Shortcut Env
  | SpecExitSignal string
  | SpecSetIsRunning string bool
  | SpecSetShortcuts ShortcutsDictionary

fun specOp :: "SpecOp \<Rightarrow> Op" where
  "specOp (SpecLaunch sc env) = Launch (specIC env) sc"
| "specOp (SpecClose sc env) = Close (specIC env) sc"
| "specOp (SpecKill sc env) = Kill (specIC env) sc"
| "specOp (SpecExitSignal sid) = ExitSignal (spec_exitSignal sid)"
| "specOp (SpecSetIsRunning k v) = SetIsRunning k v"
| "specOp (SpecSetShortcuts d) = SetShortcuts d"

text \<open>
  An InstancesController that creates an instance exactly when the runner path and the
  start directory it is given are \<open>rp\<close> and \<open>sd\<close>, and whose launches succeed.
\<close>

definition expectPaths :: "string \<Rightarrow> string \<Rightarrow> IC_ops" where
  "expectPaths rp sd =
     \<lparr>createInstance = (\<lambda>baseName shortcut rPath sDir c. (rPath = rp \<and> sDir = sd, c)),
      launchInstance = (\<lambda>sid c. (True, c)),
      stopInstance = (\<lambda>sid c. (False, c)),
      killInstance = (\<lambda>sid c. (False, c))\<rparr>"

text \<open>Inputs of the worked examples: a shortcut, two answers of the outside world.\<close>

definition shortcut_s1 :: Shortcut where
  "shortcut_s1 = \<lparr>id_s = ''s1'', name = ''one'', cmd = ''sleep 5'', position = 0\<rparr>"

definition env_ok :: Env where
  "env_ok = \<lparr>host_identity = Some 1, backend_ok = True\<rparr>"

definition env_refused :: Env where
  "env_refused = \<lparr>host_identity = None, backend_ok = True\<rparr>"

section \<open>Properties of ShortcutsState\<close>

lemma setShortcuts_loop_from:
  "i = length r \<Longrightarrow> i \<le> length sl \<Longrightarrow> setShortcuts_loop i sl r = r @ map mkEntry (drop i sl)"
proof (induction i sl r rule: setShortcuts_loop.induct)
  case (1 i sl r)
  show ?case
  proof (cases "i < length sl")
    case True
    have "setShortcuts_loop i sl r = setShortcuts_loop (i + 1) sl (r @ [mkEntry (sl ! i)])"
      using True "1.prems" by (subst setShortcuts_loop.simps) (simp add: Array_set_def)
    also have "\<dots> = (r @ [mkEntry (sl ! i)]) @ map mkEntry (drop (i + 1) sl)"
      using "1.IH" [OF True] True "1.prems" by (simp add: Array_set_def)
    also have "\<dots> = r @ map mkEntry (drop i sl)"
      using True by (simp add: Cons_nth_drop_Suc [symmetric])
    finally show ?thesis .
  next
    case False
    then show ?thesis using "1.prems" by (subst setShortcuts_loop.simps) simp
  qed
qed

lemma setShortcuts_loop_map: "setShortcuts_loop 0 sl [] = map mkEntry sl"
  using setShortcuts_loop_from [of 0 "[]" sl] by simp

lemma map_position_mkEntry:
  "map ReorderableEntry.position (map mkEntry xs) = map Shortcut.position xs"
  by (induction xs) (simp_all add: mkEntry_def)

lemma sorted_entries:
  "sorted (map ReorderableEntry.position (map mkEntry (sort_key Shortcut.position xs)))"
  by (simp only: map_position_mkEntry sorted_sort_key)

lemma shortcutsList_setShortcuts:
  "shortcutsList (setShortcuts d s) = sort_key Shortcut.position (map snd d)"
  by (simp add: setShortcuts_def forceUpdate_def Array_sort_def Object_values_def Let_def)

lemma reorderable_setShortcuts:
  "reorderableShortcuts (setShortcuts d s) = map mkEntry (sort_key Shortcut.position (map snd d))"
  by (simp add: setShortcuts_def forceUpdate_def Array_sort_def Object_values_def Let_def
      setShortcuts_loop_map sort_key_id_if_sorted [OF sorted_entries])

text \<open>
  C8. After \<open>setShortcuts d\<close> the dictionary is \<open>d\<close>; \<open>shortcutsList\<close> is the values of
  \<open>d\<close> in ascending order of position (a permutation of the values, sorted, and the
  stable sort of them, so that equal positions keep the order of the dictionary);
  \<open>reorderableShortcuts\<close> has the same length, holds for each shortcut of the list, in
  the same order, the entry with its name as label, itself as data and its position,
  and is in ascending order of position as well. Nothing is asked of the positions:
  they may repeat and leave gaps.
\<close>

theorem setShortcuts_sorted_by_position:
  "shortcuts (setShortcuts d s) = d \<and>
   shortcutsList (setShortcuts d s) = sort_key Shortcut.position (Object_values d) \<and>
   sorted (map Shortcut.position (shortcutsList (setShortcuts d s))) \<and>
   mset (shortcutsList (setShortcuts d s)) = mset (Object_values d) \<and>
   length (reorderableShortcuts (setShortcuts d s)) = length (shortcutsList (setShortcuts d s)) \<and>
   reorderableShortcuts (setShortcuts d s) =
     map (\<lambda>shortcut. \<lparr>label = name shortcut, data = shortcut,
                       position = Shortcut.position shortcut\<rparr>)
       (shortcutsList (setShortcuts d s)) \<and>
   sorted (map ReorderableEntry.position (reorderableShortcuts (setShortcuts d s)))"
proof -
  have a: "shortcuts (setShortcuts d s) = d"
    by (simp add: setShortcuts_def forceUpdate_def Let_def)
  have b: "map mkEntry = map (\<lambda>shortcut. \<lparr>label = name shortcut, data = shortcut,
                       position = Shortcut.position shortcut\<rparr>)"
    by (simp add: mkEntry_def fun_eq_iff)
  show ?thesis
    using a b sorted_entries [of "map snd d"]
    by (simp add: shortcutsList_setShortcuts reorderable_setShortcuts Object_values_def)
qed

lemma Set_add_idem: "Set_add x (Set_add x xs) = Set_add x xs"
  by (simp add: Set_add_def)

lemma Set_delete_idem: "Set_delete x (Set_delete x xs) = Set_delete x xs"
  by (simp add: Set_delete_def)

lemma Set_has_add: "Set_has (Set_add x xs) y = (y = x \<or> Set_has xs y)"
  by (auto simp: Set_has_def Set_add_def)

lemma Set_has_delete: "Set_has (Set_delete x xs) y = (y \<noteq> x \<and> Set_has xs y)"
  by (auto simp: Set_has_def Set_delete_def)

lemma runningShortcuts_setIsRunning:
  "runningShortcuts (setIsRunning sid v s) =
     (if v then Set_add sid (runningShortcuts s) else Set_delete sid (runningShortcuts s))"
  by (simp add: setIsRunning_def forceUpdate_def)

lemma Set_has_setIsRunning:
  "Set_has (runningShortcuts (setIsRunning sid v s)) x =
     (if x = sid then v else Set_has (runningShortcuts s) x)"
  by (simp add: runningShortcuts_setIsRunning Set_has_add Set_has_delete)

text \<open>
  C9. \<open>setIsRunning sid v\<close> makes the membership of \<open>sid\<close> in \<open>runningShortcuts\<close> equal to
  \<open>v\<close> and leaves the membership of every other id as it was; the dictionary,
  \<open>shortcutsList\<close> and \<open>reorderableShortcuts\<close> are unchanged; and a second call with the
  same arguments leaves every field of the public state as the first call left it
  (each call dispatches its own event).
\<close>

theorem setIsRunning_frame_idempotent:
  "Set_has (runningShortcuts (setIsRunning sid v s)) x =
     (if x = sid then v else Set_has (runningShortcuts s) x) \<and>
   shortcuts (setIsRunning sid v s) = shortcuts s \<and>
   shortcutsList (setIsRunning sid v s) = shortcutsList s \<and>
   reorderableShortcuts (setIsRunning sid v s) = reorderableShortcuts s \<and>
   getPublicState (setIsRunning sid v (setIsRunning sid v s)) =
     getPublicState (setIsRunning sid v s)"
proof -
  have frame: "shortcuts (setIsRunning sid v s) = shortcuts s \<and>
      shortcutsList (setIsRunning sid v s) = shortcutsList s \<and>
      reorderableShortcuts (setIsRunning sid v s) = reorderableShortcuts s"
    by (simp add: setIsRunning_def forceUpdate_def)
  have idem: "getPublicState (setIsRunning sid v (setIsRunning sid v s)) =
      getPublicState (setIsRunning sid v s)"
    by (simp add: setIsRunning_def getPublicState_def forceUpdate_def Set_add_idem Set_delete_idem)
  show ?thesis
    using frame idem Set_has_setIsRunning [of sid v s x] by simp
qed

text \<open>
  C10. A call of \<open>setIsRunning\<close> and a call of \<open>setShortcuts\<close> each add exactly one event
  to those the event bus has dispatched, of type "stateUpdate", and what a listener
  reads from \<open>getPublicState\<close> during that dispatch is the public state the call ends
  with.
\<close>

theorem mutation_dispatches_one_stateUpdate:
  "eventBus (setIsRunning sid v s) =
     eventBus s @ [(''stateUpdate'', getPublicState (setIsRunning sid v s))] \<and>
   eventBus (setShortcuts d s) =
     eventBus s @ [(''stateUpdate'', getPublicState (setShortcuts d s))]"
proof
  show "eventBus (setIsRunning sid v s) =
     eventBus s @ [(''stateUpdate'', getPublicState (setIsRunning sid v s))]"
    by (simp add: setIsRunning_def forceUpdate_def getPublicState_def)
  show "eventBus (setShortcuts d s) =
     eventBus s @ [(''stateUpdate'', getPublicState (setShortcuts d s))]"
    by (simp add: setShortcuts_def forceUpdate_def getPublicState_def Let_def)
qed


section \<open>Properties of PluginController\<close>

lemma added_append: "calls w' = calls w @ es \<Longrightarrow> added w w' = es"
  by (simp add: added_def)

lemma calls_call: "calls (call e w) = calls w @ [e]"
  by (simp add: call_def)

lemma IC_call_eq:
  "IC_call e method w =
     (fst (method (instancesController w)),
      w\<lparr>instancesController := snd (method (instancesController w)), calls := calls w @ [e]\<rparr>)"
  by (cases "method (instancesController w)") (simp add: IC_call_def)

lemma launchShortcut_failed:
  "\<not> fst (createInstance ic (shortcutName w) sc (runnerPath w) (startDir w) (instancesController w)) \<Longrightarrow>
   launchShortcut ic sc w =
     (False,
      w\<lparr>instancesController :=
           snd (createInstance ic (shortcutName w) sc (runnerPath w) (startDir w) (instancesController w)),
        calls := calls w @ [CreateInstanceCall (shortcutName w) sc (runnerPath w) (startDir w)]\<rparr>)"
  by (simp add: launchShortcut_def IC_call_eq)

lemma launchShortcut_created:
  "fst (createInstance ic (shortcutName w) sc (runnerPath w) (startDir w) (instancesController w)) \<Longrightarrow>
   launchShortcut ic sc w =
     IC_call (LaunchInstanceCall (id_s sc)) (launchInstance ic (id_s sc))
       (call (Log (''Created Instance for shortcut '' @ name sc))
          (w\<lparr>instancesController :=
                snd (createInstance ic (shortcutName w) sc (runnerPath w) (startDir w)
                       (instancesController w)),
             calls := calls w @ [CreateInstanceCall (shortcutName w) sc (runnerPath w) (startDir w)]\<rparr>))"
  by (simp add: launchShortcut_def IC_call_eq)

lemma added_launchShortcut:
  "added w (snd (launchShortcut ic sc w)) =
     (if fst (createInstance ic (shortcutName w) sc (runnerPath w) (startDir w) (instancesController w))
      then [CreateInstanceCall (shortcutName w) sc (runnerPath w) (startDir w),
            Log (''Created Instance for shortcut '' @ name sc),
            LaunchInstanceCall (id_s sc)]
      else [CreateInstanceCall (shortcutName w) sc (runnerPath w) (startDir w)])"
proof (cases "fst (createInstance ic (shortcutName w) sc (runnerPath w) (startDir w) (instancesController w))")
  case True
  show ?thesis
    unfolding launchShortcut_created [OF True]
    using True by (simp add: IC_call_eq call_def added_def)
next
  case False
  show ?thesis
    unfolding launchShortcut_failed [OF False]
    using False by (simp add: added_def)
qed

subsection \<open>Launching with the InstancesController of the specification\<close>

lemma spec_createInstance_running:
  "id_s sc \<in> set (Object_keys (instances c)) \<Longrightarrow>
   spec_createInstance env b sc rp sd c = (False, c)"
  by (simp add: spec_createInstance_def)

lemma spec_createInstance_refused:
  "id_s sc \<notin> set (Object_keys (instances c)) \<Longrightarrow> host_identity env = None \<Longrightarrow>
   spec_createInstance env b sc rp sd c = (False, request (HostCreateIdentity (id_s sc)) c)"
  by (simp add: spec_createInstance_def Let_def)

lemma spec_createInstance_created:
  "id_s sc \<notin> set (Object_keys (instances c)) \<Longrightarrow> host_identity env = Some h \<Longrightarrow>
   spec_createInstance env b sc rp sd c =
     (True, (request (HostCreateIdentity (id_s sc)) c)
        \<lparr>instances := instances c @
           [(id_s sc, \<lparr>shortcutId = id_s sc, hostIdentity = h, istate = Launching\<rparr>)]\<rparr>)"
  by (simp add: spec_createInstance_def Let_def request_def)

lemma distinct_spec_createInstance:
  "distinct (Object_keys (instances c)) \<Longrightarrow>
   distinct (Object_keys (instances (snd (spec_createInstance env b sc rp sd c))))"
  by (cases "id_s sc \<in> set (Object_keys (instances c))"; cases "host_identity env")
     (simp_all add: spec_createInstance_running spec_createInstance_refused
        spec_createInstance_created request_def Object_keys_def)

lemma distinct_spec_launchInstance:
  "distinct (Object_keys (instances c)) \<Longrightarrow>
   distinct (Object_keys (instances (snd (spec_launchInstance env sid c))))"
  by (simp add: spec_launchInstance_def Let_def Object_keys_def request_def
      AList.distinct_update AList.distinct_delete split: option.splits)

lemma distinct_launchShortcut:
  assumes "distinct (Object_keys (instances (instancesController w)))"
  shows "distinct (Object_keys (instances (instancesController (snd (launchShortcut (specIC env) sc w)))))"
proof (cases "fst (createInstance (specIC env) (shortcutName w) sc (runnerPath w) (startDir w)
                (instancesController w))")
  case True
  show ?thesis
    unfolding launchShortcut_created [OF True]
    using distinct_spec_launchInstance [OF distinct_spec_createInstance [OF assms]]
    by (simp add: IC_call_eq call_def specIC_def)
next
  case False
  show ?thesis
    unfolding launchShortcut_failed [OF False]
    using distinct_spec_createInstance [OF assms] by (simp add: specIC_def)
qed

text \<open>
  C2. With the InstancesController of the specification: if the ids of the table are
  pairwise different before a launch, they are so after it; and a launch of a shortcut
  whose id is in the table returns false, leaves the instances controller as it was (no
  second entry, no identity asked of the host) and makes the one call of
  \<open>createInstance\<close>. This holds in every state, so also in the state between the two
  awaited calls of another launch of the same shortcut.
\<close>

theorem launchShortcut_at_most_one_instance:
  assumes "distinct (Object_keys (instances (instancesController w)))"
  shows "distinct (Object_keys (instances (instancesController (snd (launchShortcut (specIC env) sc w))))) \<and>
    (id_s sc \<in> set (Object_keys (instances (instancesController w))) \<longrightarrow>
       fst (launchShortcut (specIC env) sc w) = False \<and>
       instancesController (snd (launchShortcut (specIC env) sc w)) = instancesController w \<and>
       added w (snd (launchShortcut (specIC env) sc w)) =
         [CreateInstanceCall (shortcutName w) sc (runnerPath w) (startDir w)])"
proof -
  have "fst (launchShortcut (specIC env) sc w) = False \<and>
       instancesController (snd (launchShortcut (specIC env) sc w)) = instancesController w \<and>
       added w (snd (launchShortcut (specIC env) sc w)) =
         [CreateInstanceCall (shortcutName w) sc (runnerPath w) (startDir w)]"
    if r: "id_s sc \<in> set (Object_keys (instances (instancesController w)))"
  proof -
    have c: "createInstance (specIC env) (shortcutName w) sc (runnerPath w) (startDir w)
               (instancesController w) = (False, instancesController w)"
      using r by (simp add: specIC_def spec_createInstance_running)
    then have f: "\<not> fst (createInstance (specIC env) (shortcutName w) sc (runnerPath w) (startDir w)
               (instancesController w))"
      by simp
    show ?thesis
      unfolding launchShortcut_failed [OF f] using c by (simp add: added_def)
  qed
  then show ?thesis using distinct_launchShortcut [OF assms] by blast
qed

theorem launchShortcut_at_most_one_instance_witness:
  "distinct (Object_keys (instances (instancesController
      (snd (launchShortcut (specIC env_ok) shortcut_s1 (PluginController_setup ShortcutsState_new)))))) \<and>
   id_s shortcut_s1 \<in> set (Object_keys (instances (instancesController
      (snd (launchShortcut (specIC env_ok) shortcut_s1 (PluginController_setup ShortcutsState_new)))))) \<and>
   fst (launchShortcut (specIC env_ok) shortcut_s1 (PluginController_setup ShortcutsState_new)) \<and>
   \<not> fst (launchShortcut (specIC env_ok) shortcut_s1
      (snd (launchShortcut (specIC env_ok) shortcut_s1 (PluginController_setup ShortcutsState_new)))) \<and>
   instances (instancesController (snd (launchShortcut (specIC env_ok) shortcut_s1
      (snd (launchShortcut (specIC env_ok) shortcut_s1 (PluginController_setup ShortcutsState_new)))))) =
     [(''s1'', \<lparr>shortcutId = ''s1'', hostIdentity = 1, istate = Running\<rparr>)]"
proof -
  let ?w1 = "snd (launchShortcut (specIC env_ok) shortcut_s1 (PluginController_setup ShortcutsState_new))"
  have w1: "instances (instancesController ?w1) =
      [(''s1'', \<lparr>shortcutId = ''s1'', hostIdentity = 1, istate = Running\<rparr>)]"
    and r1: "fst (launchShortcut (specIC env_ok) shortcut_s1 (PluginController_setup ShortcutsState_new))"
    by (simp_all add: launchShortcut_def IC_call_eq call_def specIC_def spec_createInstance_def
        spec_launchInstance_def request_def PluginController_setup_def shortcut_s1_def env_ok_def
        Object_keys_def Let_def)
  have d: "distinct (Object_keys (instances (instancesController ?w1)))"
    and m: "id_s shortcut_s1 \<in> set (Object_keys (instances (instancesController ?w1)))"
    unfolding w1 by (simp_all add: Object_keys_def shortcut_s1_def)
  show ?thesis
    using launchShortcut_at_most_one_instance [OF d, of env_ok shortcut_s1] d m r1 w1 by simp
qed


text \<open>
  C3. For every InstancesController: when \<open>createInstance\<close> returns false,
  \<open>launchShortcut\<close> returns false, leaves the instances controller as \<open>createInstance\<close>
  returned it and makes no call but that of \<open>createInstance\<close>; and \<open>launchInstance\<close> is
  called exactly when \<open>createInstance\<close> returned true. With the InstancesController of
  the specification and a host that refuses the identity, the launch returns false, the
  table of instances is as before and the backend is asked nothing.
\<close>

theorem launchShortcut_create_failure:
  "(\<not> fst (createInstance ic (shortcutName w) sc (runnerPath w) (startDir w) (instancesController w)) \<longrightarrow>
      fst (launchShortcut ic sc w) = False \<and>
      instancesController (snd (launchShortcut ic sc w)) =
        snd (createInstance ic (shortcutName w) sc (runnerPath w) (startDir w) (instancesController w)) \<and>
      added w (snd (launchShortcut ic sc w)) =
        [CreateInstanceCall (shortcutName w) sc (runnerPath w) (startDir w)]) \<and>
   (\<exists>sid. LaunchInstanceCall sid \<in> set (added w (snd (launchShortcut ic sc w)))) =
      fst (createInstance ic (shortcutName w) sc (runnerPath w) (startDir w) (instancesController w)) \<and>
   (host_identity env = None \<longrightarrow>
      fst (launchShortcut (specIC env) sc w) = False \<and>
      instances (instancesController (snd (launchShortcut (specIC env) sc w))) =
        instances (instancesController w) \<and>
      (\<forall>sid. BackendRun sid \<in> set (requests (instancesController (snd (launchShortcut (specIC env) sc w))))
         \<longleftrightarrow> BackendRun sid \<in> set (requests (instancesController w))))"
proof -
  let ?created = "fst (createInstance ic (shortcutName w) sc (runnerPath w) (startDir w)
      (instancesController w))"
  have fail: "fst (launchShortcut ic sc w) = False \<and>
      instancesController (snd (launchShortcut ic sc w)) =
        snd (createInstance ic (shortcutName w) sc (runnerPath w) (startDir w) (instancesController w)) \<and>
      added w (snd (launchShortcut ic sc w)) =
        [CreateInstanceCall (shortcutName w) sc (runnerPath w) (startDir w)]"
    if f: "\<not> ?created"
    using f by (simp add: launchShortcut_failed [OF f] added_def)
  have only: "(\<exists>sid. LaunchInstanceCall sid \<in> set (added w (snd (launchShortcut ic sc w)))) = ?created"
    by (simp add: added_launchShortcut)
  have refused: "fst (launchShortcut (specIC env) sc w) = False \<and>
      instances (instancesController (snd (launchShortcut (specIC env) sc w))) =
        instances (instancesController w) \<and>
      (\<forall>sid. BackendRun sid \<in> set (requests (instancesController (snd (launchShortcut (specIC env) sc w))))
         \<longleftrightarrow> BackendRun sid \<in> set (requests (instancesController w)))"
    if n: "host_identity env = None"
  proof -
    have c: "createInstance (specIC env) (shortcutName w) sc (runnerPath w) (startDir w)
          (instancesController w) =
        (if id_s sc \<in> set (Object_keys (instances (instancesController w)))
         then (False, instancesController w)
         else (False, request (HostCreateIdentity (id_s sc)) (instancesController w)))"
      using n by (simp add: specIC_def spec_createInstance_running spec_createInstance_refused)
    then have f: "\<not> fst (createInstance (specIC env) (shortcutName w) sc (runnerPath w) (startDir w)
          (instancesController w))"
      by simp
    show ?thesis
      unfolding launchShortcut_failed [OF f] using c by (simp add: request_def)
  qed
  show ?thesis using fail only refused by blast
qed

theorem launchShortcut_create_failure_witness:
  "host_identity env_refused = None \<and>
   \<not> fst (createInstance (specIC env_refused) None shortcut_s1
         (runnerPath (PluginController_setup ShortcutsState_new))
         (startDir (PluginController_setup ShortcutsState_new))
         (instancesController (PluginController_setup ShortcutsState_new))) \<and>
   fst (launchShortcut (specIC env_refused) shortcut_s1 (PluginController_setup ShortcutsState_new)) = False \<and>
   instances (instancesController
     (snd (launchShortcut (specIC env_refused) shortcut_s1 (PluginController_setup ShortcutsState_new)))) = [] \<and>
   requests (instancesController
     (snd (launchShortcut (specIC env_refused) shortcut_s1 (PluginController_setup ShortcutsState_new)))) =
     [HostCreateIdentity ''s1'']"
proof -
  let ?w = "PluginController_setup ShortcutsState_new"
  have n: "host_identity env_refused = None"
    by (simp add: env_refused_def)
  have f: "\<not> fst (createInstance (specIC env_refused) (shortcutName ?w) shortcut_s1
         (runnerPath ?w) (startDir ?w) (instancesController ?w))"
    by (simp add: specIC_def spec_createInstance_def env_refused_def PluginController_setup_def
        Object_keys_def Let_def)
  have s: "shortcutName ?w = None" "instances (instancesController ?w) = []"
    by (simp_all add: PluginController_setup_def)
  have q: "snd (createInstance (specIC env_refused) (shortcutName ?w) shortcut_s1
         (runnerPath ?w) (startDir ?w) (instancesController ?w)) =
       \<lparr>instances = [], requests = [HostCreateIdentity ''s1'']\<rparr>"
    by (simp add: specIC_def spec_createInstance_def env_refused_def PluginController_setup_def
        Object_keys_def Let_def request_def shortcut_s1_def)
  show ?thesis
    using launchShortcut_create_failure [of "specIC env_refused" ?w shortcut_s1 env_refused] n f s q
    by simp
qed

lemma closeShortcut_failed:
  "\<not> fst (stopInstance ic (id_s sc) (instancesController w)) \<Longrightarrow>
   closeShortcut ic sc w =
     (False,
      w\<lparr>instancesController := snd (stopInstance ic (id_s sc) (instancesController w)),
        calls := calls w @
          [StopInstanceCall (id_s sc),
           Log (''Failed to stop instance for shortcut '' @ name sc @ ''. Id: '' @ id_s sc)]\<rparr>)"
  by (simp add: closeShortcut_def IC_call_eq call_def)

lemma added_closeShortcut:
  "added w (snd (closeShortcut ic sc w)) =
     (if fst (stopInstance ic (id_s sc) (instancesController w))
      then [StopInstanceCall (id_s sc), Log (''Stopped Instance for shortcut '' @ name sc),
            KillInstanceCall (id_s sc)]
      else [StopInstanceCall (id_s sc),
            Log (''Failed to stop instance for shortcut '' @ name sc @ ''. Id: '' @ id_s sc)])"
  by (simp add: closeShortcut_def IC_call_eq call_def added_def)

text \<open>
  C6. For every InstancesController: when \<open>stopInstance\<close> returns false, \<open>closeShortcut\<close>
  returns false, leaves the instances controller as \<open>stopInstance\<close> returned it, and
  its calls are that of \<open>stopInstance\<close> and the log of the failure; \<open>killInstance\<close> is
  called exactly when \<open>stopInstance\<close> returned true. With the InstancesController of the
  specification and no instance under the id of the shortcut, \<open>closeShortcut\<close> returns
  false and leaves the instances controller as it was: the backend is asked nothing.
\<close>

theorem closeShortcut_without_instance:
  "(\<not> fst (stopInstance ic (id_s sc) (instancesController w)) \<longrightarrow>
      fst (closeShortcut ic sc w) = False \<and>
      instancesController (snd (closeShortcut ic sc w)) =
        snd (stopInstance ic (id_s sc) (instancesController w)) \<and>
      added w (snd (closeShortcut ic sc w)) =
        [StopInstanceCall (id_s sc),
         Log (''Failed to stop instance for shortcut '' @ name sc @ ''. Id: '' @ id_s sc)]) \<and>
   (\<exists>sid. KillInstanceCall sid \<in> set (added w (snd (closeShortcut ic sc w)))) =
      fst (stopInstance ic (id_s sc) (instancesController w)) \<and>
   (map_of (instances (instancesController w)) (id_s sc) = None \<longrightarrow>
      fst (closeShortcut (specIC env) sc w) = False \<and>
      instancesController (snd (closeShortcut (specIC env) sc w)) = instancesController w)"
proof -
  have fail: "fst (closeShortcut ic sc w) = False \<and>
      instancesController (snd (closeShortcut ic sc w)) =
        snd (stopInstance ic (id_s sc) (instancesController w)) \<and>
      added w (snd (closeShortcut ic sc w)) =
        [StopInstanceCall (id_s sc),
         Log (''Failed to stop instance for shortcut '' @ name sc @ ''. Id: '' @ id_s sc)]"
    if f: "\<not> fst (stopInstance ic (id_s sc) (instancesController w))"
    by (simp add: closeShortcut_failed [OF f] added_def)
  have only: "(\<exists>sid. KillInstanceCall sid \<in> set (added w (snd (closeShortcut ic sc w)))) =
      fst (stopInstance ic (id_s sc) (instancesController w))"
    by (simp add: added_closeShortcut)
  have absent: "fst (closeShortcut (specIC env) sc w) = False \<and>
      instancesController (snd (closeShortcut (specIC env) sc w)) = instancesController w"
    if n: "map_of (instances (instancesController w)) (id_s sc) = None"
  proof -
    have c: "stopInstance (specIC env) (id_s sc) (instancesController w) = (False, instancesController w)"
      using n by (simp add: specIC_def spec_stopInstance_def)
    then have f: "\<not> fst (stopInstance (specIC env) (id_s sc) (instancesController w))"
      by simp
    show ?thesis
      unfolding closeShortcut_failed [OF f] using c by simp
  qed
  show ?thesis using fail only absent by blast
qed

theorem closeShortcut_without_instance_witness:
  "map_of (instances (instancesController (PluginController_setup ShortcutsState_new)))
     (id_s shortcut_s1) = None \<and>
   \<not> fst (stopInstance (specIC env_ok) (id_s shortcut_s1)
         (instancesController (PluginController_setup ShortcutsState_new))) \<and>
   fst (closeShortcut (specIC env_ok) shortcut_s1 (PluginController_setup ShortcutsState_new)) = False \<and>
   instancesController
     (snd (closeShortcut (specIC env_ok) shortcut_s1 (PluginController_setup ShortcutsState_new))) =
     \<lparr>instances = [], requests = []\<rparr> \<and>
   added (PluginController_setup ShortcutsState_new)
     (snd (closeShortcut (specIC env_ok) shortcut_s1 (PluginController_setup ShortcutsState_new))) =
     [StopInstanceCall ''s1'', Log ''Failed to stop instance for shortcut one. Id: s1'']"
proof -
  let ?w = "PluginController_setup ShortcutsState_new"
  have n: "map_of (instances (instancesController ?w)) (id_s shortcut_s1) = None"
    by (simp add: PluginController_setup_def)
  have f: "\<not> fst (stopInstance (specIC env_ok) (id_s shortcut_s1) (instancesController ?w))"
    by (simp add: specIC_def spec_stopInstance_def PluginController_setup_def)
  have c: "instancesController ?w = \<lparr>instances = [], requests = []\<rparr>"
    by (simp add: PluginController_setup_def)
  have i: "id_s shortcut_s1 = ''s1''" "name shortcut_s1 = ''one''"
    by (simp_all add: shortcut_s1_def)
  show ?thesis
    using closeShortcut_without_instance [of "specIC env_ok" shortcut_s1 ?w env_ok] n f c
    by (simp add: i specIC_def spec_stopInstance_def)
qed

lemma createInstancePaths_added:
  "createInstancePaths (added w (snd (launchShortcut ic sc w))) = [(runnerPath w, startDir w)]"
  by (simp add: added_launchShortcut)

lemma instancesController_launchShortcut:
  "instancesController (snd (launchShortcut ic sc w)) =
     (if fst (createInstance ic (shortcutName w) sc (runnerPath w) (startDir w) (instancesController w))
      then snd (launchInstance ic (id_s sc)
             (snd (createInstance ic (shortcutName w) sc (runnerPath w) (startDir w)
                     (instancesController w))))
      else snd (createInstance ic (shortcutName w) sc (runnerPath w) (startDir w)
                  (instancesController w)))"
  by (cases "fst (createInstance ic (shortcutName w) sc (runnerPath w) (startDir w) (instancesController w))")
     (simp_all add: launchShortcut_failed launchShortcut_created IC_call_eq call_def)

lemma instancesController_closeShortcut:
  "instancesController (snd (closeShortcut ic sc w)) =
     (if fst (stopInstance ic (id_s sc) (instancesController w))
      then snd (killInstance ic (id_s sc) (snd (stopInstance ic (id_s sc) (instancesController w))))
      else snd (stopInstance ic (id_s sc) (instancesController w)))"
  by (simp add: closeShortcut_def IC_call_eq call_def)

lemma fst_launchShortcut:
  "fst (launchShortcut ic sc w) =
     (fst (createInstance ic (shortcutName w) sc (runnerPath w) (startDir w) (instancesController w)) \<and>
      fst (launchInstance ic (id_s sc)
             (snd (createInstance ic (shortcutName w) sc (runnerPath w) (startDir w)
                     (instancesController w)))))"
  by (cases "fst (createInstance ic (shortcutName w) sc (runnerPath w) (startDir w) (instancesController w))")
     (simp_all add: launchShortcut_failed launchShortcut_created IC_call_eq call_def)

lemma paths_launchShortcut:
  "runnerPath (snd (launchShortcut ic sc w)) = runnerPath w \<and>
   startDir (snd (launchShortcut ic sc w)) = startDir w"
  by (cases "fst (createInstance ic (shortcutName w) sc (runnerPath w) (startDir w) (instancesController w))")
     (simp_all add: launchShortcut_failed launchShortcut_created IC_call_eq call_def)

text \<open>
  C7. For every InstancesController \<open>ic\<close>, every shortcut and every state, a launch
  applies \<open>createInstance ic\<close> to the shortcut name, the shortcut, and the runner path
  and start directory held in the static fields at that moment, and to nothing else of
  the shortcut: the result of the launch and the instances controller after it are
  those of that one application, followed by \<open>launchInstance ic\<close> on the id when it
  returned true. So a controller that accepts only the paths \<open>rp\<close> and \<open>sd\<close> accepts the
  launch of any shortcut exactly when the static fields are \<open>rp\<close> and \<open>sd\<close>. The launch
  leaves the two fields as they are, and the recorded call carries them. Once the home
  directory is resolved to \<open>res\<close>, the two paths are the runner script and the plugin
  directory under \<open>/home/res/\<close>, each between double quotes, and these are what a launch
  passes.
\<close>

theorem launch_passes_fixed_paths:
  "fst (launchShortcut ic sc w) =
     (fst (createInstance ic (shortcutName w) sc (runnerPath w) (startDir w) (instancesController w)) \<and>
      fst (launchInstance ic (id_s sc)
             (snd (createInstance ic (shortcutName w) sc (runnerPath w) (startDir w)
                     (instancesController w))))) \<and>
   instancesController (snd (launchShortcut ic sc w)) =
     (if fst (createInstance ic (shortcutName w) sc (runnerPath w) (startDir w) (instancesController w))
      then snd (launchInstance ic (id_s sc)
             (snd (createInstance ic (shortcutName w) sc (runnerPath w) (startDir w)
                     (instancesController w))))
      else snd (createInstance ic (shortcutName w) sc (runnerPath w) (startDir w)
                  (instancesController w))) \<and>
   fst (launchShortcut (expectPaths rp sd) sc w) = (runnerPath w = rp \<and> startDir w = sd) \<and>
   fst (launchShortcut (expectPaths rp sd) sc (initOnLogin_then res w)) =
     (rp = dquote @ ''/home/'' @ res @ ''/homebrew/plugins/bash-shortcuts/shortcutsRunner.sh'' @ dquote \<and>
      sd = dquote @ ''/home/'' @ res @ ''/homebrew/plugins/bash-shortcuts/'' @ dquote) \<and>
   runnerPath (snd (launchShortcut ic sc w)) = runnerPath w \<and>
   startDir (snd (launchShortcut ic sc w)) = startDir w \<and>
   createInstancePaths (added w (snd (launchShortcut ic sc w))) = [(runnerPath w, startDir w)] \<and>
   createInstancePaths (added (initOnLogin_then res w)
       (snd (launchShortcut ic sc (initOnLogin_then res w)))) =
     [(dquote @ ''/home/'' @ res @ ''/homebrew/plugins/bash-shortcuts/shortcutsRunner.sh'' @ dquote,
       dquote @ ''/home/'' @ res @ ''/homebrew/plugins/bash-shortcuts/'' @ dquote)] \<and>
   prefix (dquote @ ''/home/'' @ res @ ''/'') (runnerPath (initOnLogin_then res w)) \<and>
   prefix (dquote @ ''/home/'' @ res @ ''/'') (startDir (initOnLogin_then res w))"
proof -
  have p: "runnerPath (initOnLogin_then res w) =
      dquote @ ''/home/'' @ res @ ''/homebrew/plugins/bash-shortcuts/shortcutsRunner.sh'' @ dquote"
    "startDir (initOnLogin_then res w) =
      dquote @ ''/home/'' @ res @ ''/homebrew/plugins/bash-shortcuts/'' @ dquote"
    by (simp_all add: initOnLogin_then_def)
  have q: "prefix (dquote @ ''/home/'' @ res @ ''/'') (runnerPath (initOnLogin_then res w))"
    "prefix (dquote @ ''/home/'' @ res @ ''/'') (startDir (initOnLogin_then res w))"
    unfolding p by simp_all
  have e: "fst (launchShortcut (expectPaths rp sd) sc v) = (runnerPath v = rp \<and> startDir v = sd)" for v
    by (simp add: fst_launchShortcut expectPaths_def)
  have e': "fst (launchShortcut (expectPaths rp sd) sc (initOnLogin_then res w)) =
     (rp = dquote @ ''/home/'' @ res @ ''/homebrew/plugins/bash-shortcuts/shortcutsRunner.sh'' @ dquote \<and>
      sd = dquote @ ''/home/'' @ res @ ''/homebrew/plugins/bash-shortcuts/'' @ dquote)"
    unfolding e p by (rule arg_cong2 [where f = "(\<and>)"]) (rule eq_commute)+
  have t: "createInstancePaths (added (initOnLogin_then res w)
       (snd (launchShortcut ic sc (initOnLogin_then res w)))) =
     [(dquote @ ''/home/'' @ res @ ''/homebrew/plugins/bash-shortcuts/shortcutsRunner.sh'' @ dquote,
       dquote @ ''/home/'' @ res @ ''/homebrew/plugins/bash-shortcuts/'' @ dquote)]"
    using createInstancePaths_added [of "initOnLogin_then res w" ic sc] by (simp only: p)
  show ?thesis
    by (intro conjI fst_launchShortcut instancesController_launchShortcut e e'
        paths_launchShortcut [THEN conjunct1] paths_launchShortcut [THEN conjunct2]
        createInstancePaths_added t q)
qed

lemma checkIfRunning_membership:
  "fst (checkIfRunning sid w) = (\<exists>inst. (sid, inst) \<in> set (instances (instancesController w)))"
  by (force simp: checkIfRunning_def Array_includes_def Object_keys_def)

lemma instancesController_setIsRunning_calls:
  "instancesController (setIsRunning_calls cs w) = instancesController w"
  by (induction cs w rule: setIsRunning_calls.induct)
     (simp_all add: PluginController_setIsRunning_def)

lemma state_PluginController_setIsRunning:
  "state (PluginController_setIsRunning k v w) = setIsRunning k v (state w)"
  by (simp add: PluginController_setIsRunning_def)

lemma Set_has_setIsRunning_calls:
  "Set_has (runningShortcuts (state (setIsRunning_calls cs w))) sid =
     lastSet sid cs (Set_has (runningShortcuts (state w)) sid)"
proof (induction cs w rule: setIsRunning_calls.induct)
  case (1 w)
  show ?case by simp
next
  case (2 k v rest w)
  show ?case
    by (simp add: "2.IH" state_PluginController_setIsRunning Set_has_setIsRunning)
qed

lemma state_launchShortcut: "state (snd (launchShortcut ic sc w)) = state w"
  by (cases "fst (createInstance ic (shortcutName w) sc (runnerPath w) (startDir w) (instancesController w))")
     (simp_all add: launchShortcut_failed launchShortcut_created IC_call_eq call_def)

lemma state_closeShortcut: "state (snd (closeShortcut ic sc w)) = state w"
  by (simp add: closeShortcut_def IC_call_eq call_def)

lemma state_killShortcut: "state (snd (killShortcut ic sc w)) = state w"
  by (simp add: killShortcut_def IC_call_eq)

lemma state_call: "state (call e w) = state w"
  by (simp add: call_def)

lemma state_init_removeLoop: "state (init_removeLoop old w) = state w"
  by (induction old w rule: init_removeLoop.induct) (simp_all add: state_call)

lemma state_init: "state (init nm ss res w) = state w"
  by (cases res) (simp_all add: init_def Let_def state_call state_init_removeLoop)

lemma runningShortcuts_setShortcuts: "runningShortcuts (setShortcuts d s) = runningShortcuts s"
  by (simp add: setShortcuts_def forceUpdate_def Let_def)

lemma Set_has_step:
  "Set_has (runningShortcuts (state (step op w))) sid =
     lastSet sid (setIsRunning_of [op]) (Set_has (runningShortcuts (state w)) sid)"
  by (cases op)
     (simp_all add: state_launchShortcut state_closeShortcut state_killShortcut state_init
        runningShortcuts_setShortcuts checkIfRunning_def initOnLogin_then_def
        state_PluginController_setIsRunning Set_has_setIsRunning)

lemma setIsRunning_of_Cons:
  "setIsRunning_of (op # ops) = setIsRunning_of [op] @ setIsRunning_of ops"
  by (cases op) simp_all

lemma lastSet_append: "lastSet sid (xs @ ys) b = lastSet sid ys (lastSet sid xs b)"
  by (induction sid xs b rule: lastSet.induct) simp_all

lemma Set_has_run:
  "Set_has (runningShortcuts (state (run ops w))) sid =
     lastSet sid (setIsRunning_of ops) (Set_has (runningShortcuts (state w)) sid)"
proof (induction ops arbitrary: w)
  case Nil
  show ?case by simp
next
  case (Cons op ops)
  have "Set_has (runningShortcuts (state (run (op # ops) w))) sid =
      lastSet sid (setIsRunning_of ops) (Set_has (runningShortcuts (state (step op w))) sid)"
    by (simp add: Cons.IH)
  also have "\<dots> = lastSet sid (setIsRunning_of ops)
      (lastSet sid (setIsRunning_of [op]) (Set_has (runningShortcuts (state w)) sid))"
    by (simp only: Set_has_step)
  also have "\<dots> = lastSet sid (setIsRunning_of (op # ops)) (Set_has (runningShortcuts (state w)) sid)"
    by (subst setIsRunning_of_Cons [of op ops]) (simp only: lastSet_append)
  finally show ?case .
qed

subsection \<open>Registered instances are non-terminal\<close>

lemma set_update_subset: "set (AList.update k v al) \<subseteq> insert (k, v) (set al)"
  by (induction al) auto

lemma set_delete_subset: "set (AList.delete k al) \<subseteq> set al"
  by (auto simp: AList.delete_eq)

lemma allNonTerminal_createInstance:
  "allNonTerminal c \<Longrightarrow> allNonTerminal (snd (spec_createInstance env b sc rp sd c))"
  by (cases "host_identity env")
     (auto simp: allNonTerminal_def spec_createInstance_def Let_def request_def nonTerminal_def)

lemma allNonTerminal_launchInstance:
  "allNonTerminal c \<Longrightarrow> allNonTerminal (snd (spec_launchInstance env sid c))"
  using set_update_subset set_delete_subset
  by (fastforce simp: allNonTerminal_def spec_launchInstance_def Let_def request_def nonTerminal_def
      split: option.splits)

lemma allNonTerminal_stopInstance:
  "allNonTerminal c \<Longrightarrow> allNonTerminal (snd (spec_stopInstance env sid c))"
  by (auto simp: allNonTerminal_def spec_stopInstance_def request_def split: option.splits)

lemma allNonTerminal_killInstance:
  "allNonTerminal c \<Longrightarrow> allNonTerminal (snd (spec_killInstance env sid c))"
  by (auto simp: allNonTerminal_def spec_killInstance_def request_def split: option.splits)

lemma allNonTerminal_exitSignal:
  "allNonTerminal c \<Longrightarrow> allNonTerminal (spec_exitSignal sid c)"
  using set_update_subset set_delete_subset
  by (fastforce simp: allNonTerminal_def spec_exitSignal_def nonTerminal_def split: option.splits)

lemma allNonTerminal_step:
  assumes "allNonTerminal (instancesController w)"
  shows "allNonTerminal (instancesController (step (specOp sop) w))"
proof (cases sop)
  case (SpecLaunch sc env)
  show ?thesis
    using assms
    by (simp add: SpecLaunch instancesController_launchShortcut specIC_def
        allNonTerminal_createInstance allNonTerminal_launchInstance)
next
  case (SpecClose sc env)
  show ?thesis
    using assms
    by (simp add: SpecClose instancesController_closeShortcut specIC_def
        allNonTerminal_stopInstance allNonTerminal_killInstance)
next
  case (SpecKill sc env)
  show ?thesis
    using assms by (simp add: SpecKill killShortcut_def IC_call_eq specIC_def allNonTerminal_killInstance)
next
  case (SpecExitSignal sid)
  show ?thesis
    using assms by (simp add: SpecExitSignal allNonTerminal_exitSignal)
next
  case (SpecSetIsRunning k v)
  show ?thesis
    using assms by (simp add: SpecSetIsRunning PluginController_setIsRunning_def)
next
  case (SpecSetShortcuts d)
  show ?thesis
    using assms by (simp add: SpecSetShortcuts)
qed

lemma allNonTerminal_run:
  "allNonTerminal (instancesController w) \<Longrightarrow>
   allNonTerminal (instancesController (run (map specOp sops) w))"
  by (induction sops arbitrary: w) (simp_all add: allNonTerminal_step)

lemma allNonTerminal_setup: "allNonTerminal (instancesController (PluginController_setup st))"
  by (simp add: allNonTerminal_def PluginController_setup_def)

text \<open>
  C1, as the code has it. \<open>runningShortcuts\<close> is a field of its own, changed by
  \<open>setIsRunning\<close> alone. After any sequence of operations (launches, closes and kills on
  any InstancesController, exit signals, \<open>setShortcuts\<close>, \<open>init\<close>, the resolution of the
  home directory, \<open>checkIfRunning\<close> and \<open>setIsRunning\<close> calls) an id is in the running set
  of the public state exactly if the last \<open>setIsRunning\<close> call of the sequence for that
  id passed true (with no such call: if it was in the set before). \<open>checkIfRunning\<close>
  answers, after the same sequence, whether the table holds an instance under the id;
  with the InstancesController of the specification, started from \<open>setup\<close>, that is
  whether a non-terminal instance exists for the id. \<open>setIsRunning\<close> calls leave the
  instances controller, and so \<open>checkIfRunning\<close>, as they were.
\<close>

theorem running_set_follows_setIsRunning:
  "Set_has (runningShortcuts (getPublicState (state (run ops w)))) sid =
     lastSet sid (setIsRunning_of ops) (Set_has (runningShortcuts (getPublicState (state w))) sid) \<and>
   fst (checkIfRunning sid (run ops w)) =
     (\<exists>inst. (sid, inst) \<in> set (instances (instancesController (run ops w)))) \<and>
   fst (checkIfRunning sid (run (map specOp sops) (PluginController_setup st))) =
     (\<exists>inst. (sid, inst) \<in> set (instances (instancesController
                 (run (map specOp sops) (PluginController_setup st)))) \<and> nonTerminal inst) \<and>
   instancesController (setIsRunning_calls cs w) = instancesController w \<and>
   fst (checkIfRunning sid (setIsRunning_calls cs w)) = fst (checkIfRunning sid w) \<and>
   Set_has (runningShortcuts (getPublicState (state (setIsRunning_calls cs w)))) sid =
     lastSet sid cs (Set_has (runningShortcuts (getPublicState (state w))) sid)"
proof -
  have pub: "runningShortcuts (getPublicState s) = runningShortcuts s" for s
    by (simp add: getPublicState_def)
  have same: "fst (checkIfRunning sid (setIsRunning_calls cs w)) = fst (checkIfRunning sid w)"
    by (simp add: checkIfRunning_def instancesController_setIsRunning_calls)
  let ?w = "run (map specOp sops) (PluginController_setup st)"
  have "allNonTerminal (instancesController ?w)"
    by (rule allNonTerminal_run) (rule allNonTerminal_setup)
  then have nt: "(\<exists>inst. (sid, inst) \<in> set (instances (instancesController ?w))) =
      (\<exists>inst. (sid, inst) \<in> set (instances (instancesController ?w)) \<and> nonTerminal inst)"
    by (force simp: allNonTerminal_def)
  have reg: "fst (checkIfRunning sid ?w) =
      (\<exists>inst. (sid, inst) \<in> set (instances (instancesController ?w)) \<and> nonTerminal inst)"
    using checkIfRunning_membership [of sid ?w] nt by simp
  show ?thesis
    using same reg checkIfRunning_membership [of sid "run ops w"]
    by (simp add: pub Set_has_run Set_has_setIsRunning_calls instancesController_setIsRunning_calls)
qed

text \<open>
  C1 as stated fails: on a fresh controller, \<open>setIsRunning "s1" true\<close> puts s1 into the
  running set of the public state while the table of instances is empty and
  \<open>checkIfRunning "s1"\<close> is false.
\<close>

theorem running_set_diverges_counterexample:
  "Set_has (runningShortcuts (getPublicState (state
      (PluginController_setIsRunning ''s1'' True (PluginController_setup ShortcutsState_new))))) ''s1'' \<and>
   \<not> fst (checkIfRunning ''s1''
      (PluginController_setIsRunning ''s1'' True (PluginController_setup ShortcutsState_new))) \<and>
   instances (instancesController
      (PluginController_setIsRunning ''s1'' True (PluginController_setup ShortcutsState_new))) = []"
  by (simp add: PluginController_setIsRunning_def PluginController_setup_def ShortcutsState_new_def
      setIsRunning_def forceUpdate_def getPublicState_def Set_has_def Set_add_def
      checkIfRunning_def Array_includes_def Object_keys_def)

lemma Array_includes_steps_le: "Array_includes_steps xs x \<le> length xs"
  by (induction xs) simp_all

text \<open>
  C4, as the code has it. \<open>checkIfRunning\<close> returns true exactly when the table holds an
  instance under the id and leaves the controller as it is; its work is linear in the
  size of the table: at least one step for each entry, at most two.
\<close>

theorem checkIfRunning_pure_read_linear:
  "fst (checkIfRunning sid w) = (\<exists>inst. (sid, inst) \<in> set (instances (instancesController w))) \<and>
   snd (checkIfRunning sid w) = w \<and>
   length (instances (instancesController w)) \<le> checkIfRunning_steps sid w \<and>
   checkIfRunning_steps sid w \<le> 2 * length (instances (instancesController w))"
proof -
  have "Array_includes_steps (Object_keys (instances (instancesController w))) sid
      \<le> length (instances (instancesController w))"
    using Array_includes_steps_le [of "Object_keys (instances (instancesController w))" sid]
    by (simp add: Object_keys_def)
  then show ?thesis
    using checkIfRunning_membership [of sid w]
    by (simp add: checkIfRunning_def checkIfRunning_steps_def Object_keys_def)
qed

lemma distinct_manyInstances: "distinct (Object_keys (manyInstances n))"
proof -
  have "inj_on (\<lambda>k. replicate k CHR ''a'') {0..<n}"
    by (rule inj_onI) (metis length_replicate)
  then show ?thesis
    by (simp add: manyInstances_def Object_keys_def comp_def distinct_map)
qed

text \<open>
  C4 as stated fails: no constant bounds the work of \<open>checkIfRunning\<close>, even over tables
  whose ids are pairwise different. On the table of \<open>c + 1\<close> instances it takes more than
  \<open>c\<close> steps.
\<close>

theorem checkIfRunning_constant_time_counterexample:
  "\<not> (\<exists>c. \<forall>sid w. distinct (Object_keys (instances (instancesController w))) \<longrightarrow>
          checkIfRunning_steps sid w \<le> c)"
proof
  assume "\<exists>c. \<forall>sid w. distinct (Object_keys (instances (instancesController w))) \<longrightarrow>
          checkIfRunning_steps sid w \<le> c"
  then obtain c where c: "\<And>sid w. distinct (Object_keys (instances (instancesController w))) \<Longrightarrow>
      checkIfRunning_steps sid w \<le> c"
    by blast
  let ?w = "(PluginController_setup ShortcutsState_new)
      \<lparr>instancesController := \<lparr>instances = manyInstances (Suc c), requests = []\<rparr>\<rparr>"
  have "checkIfRunning_steps [] ?w \<le> c"
    by (rule c) (simp add: distinct_manyInstances)
  moreover have "Suc c \<le> checkIfRunning_steps [] ?w"
    by (simp add: checkIfRunning_steps_def Object_keys_def manyInstances_def)
  ultimately show False by simp
qed

lemma calls_init_removeLoop:
  "calls (init_removeLoop old w) = calls w @ map (\<lambda>inst. RemoveShortcutById (unAppID inst)) old"
  by (induction old w rule: init_removeLoop.induct) (simp_all add: calls_call)

lemma calls_init:
  "calls (init nm ss res w) =
     calls w @ Log ''PluginController initializing...'' #
       map (\<lambda>inst. RemoveShortcutById (unAppID inst))
         (filter (\<lambda>shortcut. prefix ''Bash Shortcuts - Instance'' (strDisplayName shortcut)) ss) @
       [WebSocketConnect,
        (case res of
           Inl err \<Rightarrow> Log (''Failed to get shortcuts for hooks. Error: '' @ err)
         | Inr scs \<Rightarrow> HooksInit scs),
        Log ''PluginController initialized.'']"
proof -
  let ?old = "filter (\<lambda>shortcut. prefix ''Bash Shortcuts - Instance'' (strDisplayName shortcut)) ss"
  let ?w2 = "(call (Log ''PluginController initializing...'') w)\<lparr>shortcutName := Some nm\<rparr>"
  have w3: "calls (if length ?old > 0 then init_removeLoop ?old ?w2 else ?w2) =
      calls w @ Log ''PluginController initializing...'' #
        map (\<lambda>inst. RemoveShortcutById (unAppID inst)) ?old"
    by (cases ?old) (simp_all add: calls_init_removeLoop calls_call)
  show ?thesis
    unfolding init_def Let_def
    by (cases res) (simp_all only: sum.case calls_call w3 append_Cons append_Nil append_assoc)
qed

text \<open>
  C5. \<open>init\<close> looks at the type of the result of \<open>getShortcuts\<close> before using it. When it
  is a string, the calls of \<open>init\<close> are the opening log, the removals of the old
  instances, the connection of the web socket, the log of the failure with the string,
  and the closing log: the hooks controller is not initialised and \<open>init\<close> runs to its
  end. When it is the shortcuts, the hooks controller is initialised with them in the
  place of the failure log. So the hooks controller is initialised exactly when the
  result is not a string, and then once.
\<close>

theorem init_checks_string_result:
  "added w (init nm ss (Inl err) w) =
     Log ''PluginController initializing...'' #
       map (\<lambda>inst. RemoveShortcutById (unAppID inst))
         (filter (\<lambda>shortcut. prefix ''Bash Shortcuts - Instance'' (strDisplayName shortcut)) ss) @
       [WebSocketConnect, Log (''Failed to get shortcuts for hooks. Error: '' @ err),
        Log ''PluginController initialized.''] \<and>
   added w (init nm ss (Inr scs) w) =
     Log ''PluginController initializing...'' #
       map (\<lambda>inst. RemoveShortcutById (unAppID inst))
         (filter (\<lambda>shortcut. prefix ''Bash Shortcuts - Instance'' (strDisplayName shortcut)) ss) @
       [WebSocketConnect, HooksInit scs, Log ''PluginController initialized.''] \<and>
   (HooksInit x \<in> set (added w (init nm ss res w))) = (res = Inr x) \<and>
   length (filter (\<lambda>e. \<exists>d. e = HooksInit d) (added w (init nm ss res w))) =
     (case res of Inl e \<Rightarrow> 0 | Inr d \<Rightarrow> 1)"
proof -
  have a: "added w (init nm ss r w) =
     Log ''PluginController initializing...'' #
       map (\<lambda>inst. RemoveShortcutById (unAppID inst))
         (filter (\<lambda>shortcut. prefix ''Bash Shortcuts - Instance'' (strDisplayName shortcut)) ss) @
       [WebSocketConnect,
        (case r of
           Inl err \<Rightarrow> Log (''Failed to get shortcuts for hooks. Error: '' @ err)
         | Inr scs \<Rightarrow> HooksInit scs),
        Log ''PluginController initialized.'']" for r
    by (rule added_append) (rule calls_init)
  have nf: "filter (\<lambda>e. \<exists>d. e = HooksInit d) (map (\<lambda>inst. RemoveShortcutById (unAppID inst)) xs) = []"
    for xs :: "SteamAppDetails list"
    by (induction xs) simp_all
  have b: "(HooksInit x \<in> set (added w (init nm ss res w))) = (res = Inr x)"
    unfolding a by (cases res) auto
  have c: "length (filter (\<lambda>e. \<exists>d. e = HooksInit d) (added w (init nm ss res w))) =
     (case res of Inl e \<Rightarrow> 0 | Inr d \<Rightarrow> 1)"
    unfolding a by (cases res) (simp_all add: nf)
  show ?thesis
    using a [of "Inl err"] a [of "Inr scs"] b c by simp
qed

end
